theory Spec2Isabelle
  imports
    Main
    "HOL-Library.Char_ord"
    "HOL-Library.List_Lexorder"
    "HOL-Library.Sublist"
    "HOL-Library.AList"
    "HOL-Library.Word"
begin

section \<open>The fluid-diagnose bundler: data model\<close>

text \<open>
  A Go \<^verbatim>\<open>string\<close> and a Go \<^verbatim>\<open>[]byte\<close> are both sequences of bytes; an Isabelle
  \<^typ>\<open>char\<close> is one byte. Strings are ordered byte-wise and lexicographically
  (\<^verbatim>\<open>Char_ord\<close>, \<^verbatim>\<open>List_Lexorder\<close>), which is the order of Go's \<^verbatim>\<open>sort.Strings\<close>.

  Go's \<^verbatim>\<open>int\<close> and \<^verbatim>\<open>int64\<close> only count files and bytes held in memory here, far
  below \<open>2 ^ 63\<close>, so they are \<^typ>\<open>int\<close>.
\<close>

type_synonym bytes = string

subsection \<open>time.Time\<close>

text \<open>
  A \<^verbatim>\<open>time.Time\<close> is kept as the civil date and time it shows in its own location,
  with the location's offset in seconds east of UTC. (The Go value also carries a
  location name and possibly a monotonic reading; neither \<^verbatim>\<open>Format\<close> layout used by
  the bundler prints them.)
\<close>

record Time =
  Year :: int
  Month :: int
  Day :: int
  Hour :: int
  Minute :: int
  Second :: int
  Nanosecond :: int
  Offset :: int

fun itoa :: "nat \<Rightarrow> string" where
  "itoa n = (if n < 10 then [''0123456789'' ! n]
             else itoa (n div 10) @ [''0123456789'' ! (n mod 10)])"

declare itoa.simps [simp del]

text \<open>\<^verbatim>\<open>appendInt\<close> of package time: sign, then the decimal digits padded with zeros to
  the width.\<close>

definition appendInt :: "int \<Rightarrow> nat \<Rightarrow> string" where
  "appendInt x width =
     (let ds = itoa (nat \<bar>x\<bar>)
      in (if x < 0 then ''-'' else '''') @ replicate (width - length ds) (CHR ''0'') @ ds)"

text \<open>\<^verbatim>\<open>t.Format("20060102-150405")\<close>\<close>

definition Format_compact :: "Time \<Rightarrow> string" where
  "Format_compact t =
     appendInt (Year t) 4 @ appendInt (Month t) 2 @ appendInt (Day t) 2 @ ''-'' @
     appendInt (Hour t) 2 @ appendInt (Minute t) 2 @ appendInt (Second t) 2"

text \<open>\<^verbatim>\<open>t.Format(time.RFC3339)\<close>, layout \<^verbatim>\<open>2006-01-02T15:04:05Z07:00\<close>\<close>

definition Format_zone :: "int \<Rightarrow> string" where
  "Format_zone off =
     (if off = 0 then ''Z''
      else (let z = (if off < 0 then - ((- off) div 60) else off div 60);
                a = \<bar>z\<bar>
            in (if z < 0 then ''-'' else ''+'') @ appendInt (a div 60) 2 @ '':'' @
               appendInt (a mod 60) 2))"

definition Format_RFC3339 :: "Time \<Rightarrow> string" where
  "Format_RFC3339 t =
     appendInt (Year t) 4 @ ''-'' @ appendInt (Month t) 2 @ ''-'' @
     appendInt (Day t) 2 @ ''T'' @
     appendInt (Hour t) 2 @ '':'' @ appendInt (Minute t) 2 @ '':'' @
     appendInt (Second t) 2 @ Format_zone (Offset t)"

text \<open>
  \<^verbatim>\<open>t.Round(time.Second)\<close>: the nearest whole second, halves rounded up. Go's calendar
  is the proleptic Gregorian one and has no leap seconds, so adding a second is a
  carry through the civil fields.
\<close>

definition isLeap :: "int \<Rightarrow> bool" where
  "isLeap y = (y mod 4 = 0 \<and> (y mod 100 \<noteq> 0 \<or> y mod 400 = 0))"

definition daysIn :: "int \<Rightarrow> int \<Rightarrow> int" where
  "daysIn y m =
     (if m = 2 then (if isLeap y then 29 else 28)
      else if m = 4 \<or> m = 6 \<or> m = 9 \<or> m = 11 then 30 else 31)"

definition addSecond :: "Time \<Rightarrow> Time" where
  "addSecond t =
     (if Second t < 59 then t\<lparr>Second := Second t + 1\<rparr>
      else if Minute t < 59 then t\<lparr>Second := 0, Minute := Minute t + 1\<rparr>
      else if Hour t < 23 then t\<lparr>Second := 0, Minute := 0, Hour := Hour t + 1\<rparr>
      else if Day t < daysIn (Year t) (Month t) then
        t\<lparr>Second := 0, Minute := 0, Hour := 0, Day := Day t + 1\<rparr>
      else if Month t < 12 then
        t\<lparr>Second := 0, Minute := 0, Hour := 0, Day := 1, Month := Month t + 1\<rparr>
      else t\<lparr>Second := 0, Minute := 0, Hour := 0, Day := 1, Month := 1, Year := Year t + 1\<rparr>)"

definition Round_Second :: "Time \<Rightarrow> Time" where
  "Round_Second t =
     (if Nanosecond t < 500000000 then t\<lparr>Nanosecond := 0\<rparr>
      else addSecond (t\<lparr>Nanosecond := 0\<rparr>))"

text \<open>The zero \<^verbatim>\<open>time.Time{}\<close>: 1 January of year 1, 00:00:00 UTC.\<close>

definition zeroTime :: Time where
  "zeroTime = \<lparr>Year = 1, Month = 1, Day = 1, Hour = 0, Minute = 0, Second = 0,
               Nanosecond = 0, Offset = 0\<rparr>"

subsection \<open>pkg/types\<close>

record Issue =
  Level :: string
  Message :: string

record DiagnosticResult =
  Issues :: "Issue list"
  Score :: int

record BundleMetadata =
  CreationTimestamp :: Time
  FluidVersion :: string
  K8sVersion :: string
  Environment :: string

record FileEntry =
  Path :: string
  Size :: int
  SHA256 :: string

record BundleManifest =
  Version :: string
  GeneratedAt :: Time
  TotalFiles :: int
  Files :: "FileEntry list"
  ContentHash :: string

record BundleResult =
  ArchivePath :: string
  FileCount :: int
  Manifest :: BundleManifest
  SizeBytes :: int

text \<open>
  The values that travel through an \<^verbatim>\<open>interface{}\<close> in the bundler. \<open>GNil\<close>, \<open>GBool\<close>,
  \<open>GFloat64\<close> (the IEEE bit pattern), \<open>GString\<close>, \<open>GSlice\<close> (\<^verbatim>\<open>[]interface{}\<close>) and
  \<open>GMap\<close> (\<^verbatim>\<open>map[string]interface{}\<close>) are what \<^verbatim>\<open>json.Unmarshal\<close> produces; the others
  are the typed values the pipeline passes to \<^verbatim>\<open>addFile\<close>, and \<open>GOpaque\<close> stands for
  any other Go value a \<^verbatim>\<open>ResourceGraph\<close> may hold (a typed map, a number, a function).

  A Go map is an association list with distinct keys. The order of the list is the
  order in which a \<^verbatim>\<open>range\<close> statement visits the map in the run being modelled: Go
  leaves that order unspecified and varies it from one loop to the next.
\<close>

datatype goval =
    GNil
  | GBool bool
  | GFloat64 "64 word"
  | GString string
  | GBytes bytes
  | GSlice "goval list"
  | GMap "(string \<times> goval) list"
  | GResourceGraph "(string \<times> goval) list"
  | GDiagnosticResult DiagnosticResult
  | GBundleMetadata BundleMetadata
  | GBundleManifest BundleManifest
  | GOpaque nat

record BundleInput =
  Graph :: "(string \<times> goval) list"
  Diagnosis :: DiagnosticResult
  Metadata :: BundleMetadata
  Logs :: "(string \<times> bytes) list"
  Resources :: "(string \<times> string) list"

subsection \<open>The standard library and the operating system\<close>

text \<open>
  \<^verbatim>\<open>archive/tar\<close>'s header, with the fields the writer sets.
\<close>

record Header =
  Name :: string
  HSize :: int
  Mode :: int
  ModTime :: Time
  AccessTime :: Time
  ChangeTime :: Time
  Typeflag :: char

definition TypeReg :: char where
  "TypeReg = CHR ''0''"

text \<open>
  The header that \<^verbatim>\<open>tar.Writer.WriteHeader\<close> encodes when the header's \<^verbatim>\<open>Format\<close> is left
  unspecified, as the bundler leaves it: the library then rounds \<^verbatim>\<open>ModTime\<close> to the
  nearest second and ignores \<^verbatim>\<open>AccessTime\<close> and \<^verbatim>\<open>ChangeTime\<close> (it sets both to the zero
  time before encoding), as the documentation of \<^verbatim>\<open>tar.Header\<close> states.
\<close>

definition storedHeader :: "Header \<Rightarrow> Header" where
  "storedHeader h =
     h\<lparr>ModTime := Round_Second (ModTime h), AccessTime := zeroTime, ChangeTime := zeroTime\<rparr>"

text \<open>
  What the bundler calls but does not define is a parameter of the model: the clock,
  SHA-256, the JSON and YAML encoders, and the outcome of each file-system and
  tar/gzip call (\<open>None\<close>: success; \<open>Some msg\<close> or \<open>Inl msg\<close>: the error). Every theorem
  holds for all of them.
\<close>

record env =
  Now :: Time
  Sum256 :: "bytes \<Rightarrow> bytes"
  Marshal :: "goval \<Rightarrow> string + bytes"
  Unmarshal :: "bytes \<Rightarrow> string + goval"
  MarshalIndent :: "goval \<Rightarrow> string + bytes"
  yamlMarshal :: "goval \<Rightarrow> string + bytes"
  MkdirAll :: "string \<Rightarrow> string option"
  Abs :: "string \<Rightarrow> string + string"
  Create :: "string \<Rightarrow> string option"
  WriteHeader :: "Header \<Rightarrow> string option"
  Write :: "Header \<Rightarrow> bytes \<Rightarrow> string option"

text \<open>
  The disk maps the absolute path of each file the program has created to the tar
  entries written into it so far, in order, each with the header as the tar writer
  encodes it. The bytes of the file are the gzip stream of the tar stream of these
  entries.
\<close>

type_synonym archive = "(Header \<times> bytes) list"
type_synonym disk = "string \<Rightarrow> archive option"

subsection \<open>encoding/hex\<close>

definition hexdigit :: "int \<Rightarrow> char" where
  "hexdigit n = ''0123456789abcdef'' ! nat n"

fun EncodeToString :: "bytes \<Rightarrow> string" where
  "EncodeToString [] = []"
| "EncodeToString (b # bs) =
     hexdigit (of_char b div 16) # hexdigit (of_char b mod 16) # EncodeToString bs"

subsection \<open>path/filepath (Unix)\<close>

fun split_slash :: "string \<Rightarrow> string list" where
  "split_slash [] = [[]]"
| "split_slash (c # cs) =
     (if c = CHR ''/'' then [] # split_slash cs
      else (case split_slash cs of [] \<Rightarrow> [[c]] | x # xs \<Rightarrow> (c # x) # xs))"

fun join_slash :: "string list \<Rightarrow> string" where
  "join_slash [] = []"
| "join_slash [x] = x"
| "join_slash (x # y # ys) = x @ ''/'' @ join_slash (y # ys)"

text \<open>
  One element of the path in \<^verbatim>\<open>Clean\<close>: empty elements and \<^verbatim>\<open>.\<close> are dropped; \<^verbatim>\<open>..\<close>
  removes the element before it, is dropped at the root, and is kept where a relative
  path has nothing left to remove.
\<close>

definition clean_step :: "bool \<Rightarrow> string list \<Rightarrow> string \<Rightarrow> string list" where
  "clean_step rooted out e =
     (if e = [] \<or> e = ''.'' then out
      else if e = ''..'' then
        (if out \<noteq> [] \<and> last out \<noteq> ''..'' then butlast out
         else if rooted then out
         else out @ [''..''])
      else out @ [e])"

definition Clean :: "string \<Rightarrow> string" where
  "Clean path =
     (if path = [] then ''.''
      else (let rooted = (hd path = CHR ''/'');
                out = join_slash (foldl (clean_step rooted) [] (split_slash path))
            in if rooted then CHR ''/'' # out
               else if out = [] then ''.'' else out))"

text \<open>\<^verbatim>\<open>filepath.Join\<close>: from the first non-empty element on, the elements are joined
  with a slash and cleaned.\<close>

definition Join :: "string list \<Rightarrow> string" where
  "Join elem =
     (case dropWhile (\<lambda>e. e = []) elem of
        [] \<Rightarrow> []
      | e # es \<Rightarrow> Clean (join_slash (e # es)))"

text \<open>
  A clean relative path: its elements between slashes are non-empty and are neither
  \<^verbatim>\<open>.\<close> nor \<^verbatim>\<open>..\<close>. \<^verbatim>\<open>Clean\<close> leaves such a path as it is.
\<close>

definition cleanRelative :: "string \<Rightarrow> bool" where
  "cleanRelative p = list_all (\<lambda>e. e \<noteq> [] \<and> e \<noteq> ''.'' \<and> e \<noteq> ''..'') (split_slash p)"

section \<open>layout.go\<close>

definition ManifestFile :: string where "ManifestFile = ''manifest.json''"
definition SummaryFile :: string where "SummaryFile = ''summary.txt''"
definition GraphFile :: string where "GraphFile = ''graph.json''"
definition DiagnosisFile :: string where "DiagnosisFile = ''diagnosis.json''"
definition ResourcesDir :: string where "ResourcesDir = ''resources''"
definition LogsDir :: string where "LogsDir = ''logs''"
definition MetadataDir :: string where "MetadataDir = ''metadata''"

section \<open>manifest.go\<close>

record ManifestBuilder =
  manifest :: BundleManifest

definition NewManifestBuilder :: "string \<Rightarrow> Time \<Rightarrow> ManifestBuilder" where
  "NewManifestBuilder version t =
     \<lparr>manifest = \<lparr>Version = version, GeneratedAt = t, TotalFiles = 0, Files = [],
                  ContentHash = []\<rparr>\<rparr>"

definition ManifestBuilder_AddFile ::
  "(bytes \<Rightarrow> bytes) \<Rightarrow> ManifestBuilder \<Rightarrow> string \<Rightarrow> int \<Rightarrow> bytes \<Rightarrow> ManifestBuilder" where
  "ManifestBuilder_AddFile sum256 mb path sz data =
     (let hash = sum256 data;
          entry = \<lparr>Path = path, Size = sz, SHA256 = EncodeToString hash\<rparr>
      in mb\<lparr>manifest := (manifest mb)\<lparr>Files := Files (manifest mb) @ [entry],
                                        TotalFiles := TotalFiles (manifest mb) + 1\<rparr>\<rparr>)"

text \<open>
  A \<^verbatim>\<open>hash.Hash\<close> is the bytes written to it so far: \<^verbatim>\<open>Write\<close> appends, and
  \<^verbatim>\<open>Sum(b)\<close> appends the digest of everything written to \<open>b\<close>.
\<close>

definition hasher_New :: bytes where
  "hasher_New = []"

definition hasher_Write :: "bytes \<Rightarrow> bytes \<Rightarrow> bytes" where
  "hasher_Write h p = h @ p"

definition hasher_Sum :: "(bytes \<Rightarrow> bytes) \<Rightarrow> bytes \<Rightarrow> bytes \<Rightarrow> bytes" where
  "hasher_Sum sum256 h b = b @ sum256 h"

text \<open>\<^verbatim>\<open>Build\<close> stores the aggregate digest in the builder's manifest and returns a
  copy of that manifest.\<close>

definition ManifestBuilder_Build :: "(bytes \<Rightarrow> bytes) \<Rightarrow> ManifestBuilder \<Rightarrow> BundleManifest" where
  "ManifestBuilder_Build sum256 mb =
     (let hasher = foldl (\<lambda>h f. hasher_Write h (SHA256 f)) hasher_New (Files (manifest mb))
      in (manifest mb)\<lparr>ContentHash := EncodeToString (hasher_Sum sum256 hasher [])\<rparr>)"

section \<open>writer.go\<close>

record ArchiveWriter =
  baseDir :: string
  files :: "(string \<times> bytes) list"
  ts :: Time

definition NewArchiveWriter :: "string \<Rightarrow> Time \<Rightarrow> ArchiveWriter" where
  "NewArchiveWriter b t = \<lparr>baseDir = b, files = [], ts = t\<rparr>"

text \<open>\<^verbatim>\<open>w.files[path] = content\<close>\<close>

definition ArchiveWriter_AddFile :: "ArchiveWriter \<Rightarrow> string \<Rightarrow> bytes \<Rightarrow> ArchiveWriter" where
  "ArchiveWriter_AddFile w path content = w\<lparr>files := AList.update path content (files w)\<rparr>"

text \<open>\<^verbatim>\<open>w.files[p]\<close>, which is \<^verbatim>\<open>nil\<close> for a missing key.\<close>

definition contentAt :: "ArchiveWriter \<Rightarrow> string \<Rightarrow> bytes" where
  "contentAt w p = (case map_of (files w) p of Some c \<Rightarrow> c | None \<Rightarrow> [])"

datatype write_error =
    CreateOutputDirFailed string
  | ResolveAbsFailed string
  | CreateArchiveFailed string
  | WriteHeaderFailed string string
  | WriteContentFailed string string

definition mkHeader :: "ArchiveWriter \<Rightarrow> string \<Rightarrow> bytes \<Rightarrow> Header" where
  "mkHeader w p content =
     \<lparr>Name = Join [baseDir w, p], HSize = int (length content), Mode = 420,
      ModTime = ts w, AccessTime = ts w, ChangeTime = ts w, Typeflag = TypeReg\<rparr>"

text \<open>
  The loop over the sorted paths. It carries the entries written to the file so far
  and the running total; an error leaves in the file what had been written before it
  (after a failed \<^verbatim>\<open>Write\<close>, the header without its content).
\<close>

fun writeEntries ::
  "env \<Rightarrow> ArchiveWriter \<Rightarrow> string list \<Rightarrow> archive \<Rightarrow> int \<Rightarrow> archive \<times> (write_error + int)" where
  "writeEntries e w [] done totalSize = (done, Inr totalSize)"
| "writeEntries e w (p # ps) done totalSize =
     (let content = contentAt w p;
          header = mkHeader w p content
      in case WriteHeader e header of
           Some err \<Rightarrow> (done, Inl (WriteHeaderFailed p err))
         | None \<Rightarrow>
             (case Write e header content of
                Some err \<Rightarrow>
                  (done @ [(storedHeader header, [])], Inl (WriteContentFailed p err))
              | None \<Rightarrow>
                  writeEntries e w ps (done @ [(storedHeader header, content)])
                    (totalSize + int (length content))))"

text \<open>The tar entry of a buffered path: its header as encoded, and its content.\<close>

definition entryFor :: "ArchiveWriter \<Rightarrow> string \<Rightarrow> Header \<times> bytes" where
  "entryFor w p = (storedHeader (mkHeader w p (contentAt w p)), contentAt w p)"

definition sortedPaths :: "ArchiveWriter \<Rightarrow> string list" where
  "sortedPaths w = sort (map fst (files w))"

definition WriteToDisk ::
  "env \<Rightarrow> disk \<Rightarrow> ArchiveWriter \<Rightarrow> string \<Rightarrow> disk \<times> (write_error + string \<times> int)" where
  "WriteToDisk e d w outputDir =
     (case MkdirAll e outputDir of
        Some err \<Rightarrow> (d, Inl (CreateOutputDirFailed err))
      | None \<Rightarrow>
          (let filename = baseDir w @ ''.tar.gz'';
               archivePath = Join [outputDir, filename]
           in case Abs e archivePath of
                Inl err \<Rightarrow> (d, Inl (ResolveAbsFailed err))
              | Inr absPath \<Rightarrow>
                  (case Create e absPath of
                     Some err \<Rightarrow> (d, Inl (CreateArchiveFailed err))
                   | None \<Rightarrow>
                       (case writeEntries e w (sortedPaths w) [] 0 of
                          (written, Inl err) \<Rightarrow> (d(absPath \<mapsto> written), Inl err)
                        | (written, Inr totalSize) \<Rightarrow>
                            (d(absPath \<mapsto> written), Inr (absPath, totalSize))))))"

section \<open>Sequences of calls\<close>

text \<open>A builder or a writer after a sequence of \<^verbatim>\<open>AddFile\<close> calls, given by their
  arguments in the order of the calls.\<close>

definition addManifestFiles ::
  "(bytes \<Rightarrow> bytes) \<Rightarrow> ManifestBuilder \<Rightarrow> (string \<times> int \<times> bytes) list \<Rightarrow> ManifestBuilder" where
  "addManifestFiles sum256 mb calls =
     foldl (\<lambda>b (path, sz, data). ManifestBuilder_AddFile sum256 b path sz data) mb calls"

definition addArchiveFiles :: "ArchiveWriter \<Rightarrow> (string \<times> bytes) list \<Rightarrow> ArchiveWriter" where
  "addArchiveFiles w calls =
     foldl (\<lambda>a (path, content). ArchiveWriter_AddFile a path content) w calls"

section \<open>redact.go\<close>

text \<open>The \<^verbatim>\<open>mask\<close> field of the redactor that \<^verbatim>\<open>newRedactor\<close> builds.\<close>

definition mask_str :: string where
  "mask_str = ''[REDACTED]''"

subsection \<open>Pattern-based redaction\<close>

text \<open>
  The one compiled pattern of \<^verbatim>\<open>newRedactor\<close> is
  \<^verbatim>\<open>(?i)(password|token|key|secret)\s*[:=]\s*["']?([^"'\s]+)["']?\<close>.
  The matcher below is that expression read from left to right, on bytes.

  \<^item> \<^verbatim>\<open>\s\<close> is tab, line feed, form feed, carriage return and space.
  \<^item> Under \<^verbatim>\<open>(?i)\<close> a letter matches its two ASCII cases; \<^verbatim>\<open>k\<close> also matches the Kelvin
    sign U+212A and \<^verbatim>\<open>s\<close> the long s U+017F (Unicode simple case folding), written here
    as their UTF-8 bytes.
  \<^item> Every byte of a multi-byte or invalid UTF-8 sequence is outside the quotes and
    the white space, so the negated class, which Go applies to runes, accepts exactly
    the bytes that are neither; a match can only begin at the first byte of a rune.
\<close>

definition isSpace :: "char \<Rightarrow> bool" where
  "isSpace c = (c = CHR 0x09 \<or> c = CHR 0x0A \<or> c = CHR 0x0C \<or> c = CHR 0x0D \<or> c = CHR '' '')"

definition isQuote :: "char \<Rightarrow> bool" where
  "isQuote c = (c = CHR 0x22 \<or> c = CHR 0x27)"

definition isDelim :: "char \<Rightarrow> bool" where
  "isDelim c = (c = CHR '':'' \<or> c = CHR ''='')"

definition isValueChar :: "char \<Rightarrow> bool" where
  "isValueChar c = (\<not> isQuote c \<and> \<not> isSpace c)"

definition lowerLetters :: string where
  "lowerLetters = ''abcdefghijklmnopqrstuvwxyz''"

definition upperLetters :: string where
  "upperLetters = ''ABCDEFGHIJKLMNOPQRSTUVWXYZ''"

definition asciiUpper :: "char \<Rightarrow> char" where
  "asciiUpper c = (case map_of (zip lowerLetters upperLetters) c of Some u \<Rightarrow> u | None \<Rightarrow> c)"

definition asciiLower :: "char \<Rightarrow> char" where
  "asciiLower c = (case map_of (zip upperLetters lowerLetters) c of Some l \<Rightarrow> l | None \<Rightarrow> c)"

definition KELVIN :: string where
  "KELVIN = [CHR 0xE2, CHR 0x84, CHR 0xAA]"

definition LONG_S :: string where
  "LONG_S = [CHR 0xC5, CHR 0xBF]"

definition foldVariants :: "char \<Rightarrow> string list" where
  "foldVariants c =
     (if c = CHR ''k'' then [''k'', ''K'', KELVIN]
      else if c = CHR ''s'' then [''s'', ''S'', LONG_S]
      else [[c], [asciiUpper c]])"

text \<open>A literal word of the pattern against the head of the input: the text matched
  and the input after it.\<close>

fun matchLiteral :: "string \<Rightarrow> string \<Rightarrow> (string \<times> string) option" where
  "matchLiteral [] s = Some ([], s)"
| "matchLiteral (p # ps) s =
     (case find (\<lambda>v. prefix v s) (foldVariants p) of
        None \<Rightarrow> None
      | Some v \<Rightarrow>
          (case matchLiteral ps (drop (length v) s) of
             None \<Rightarrow> None
           | Some (m, r) \<Rightarrow> Some (v @ m, r)))"

text \<open>
  \<^verbatim>\<open>\s*[:=]\s*["']?([^"'\s]+)["']?\<close> after the marker; the result is the input after
  the match (\<open>skipQuote\<close> is the optional quote). Each repetition is greedy, and giving back what one has taken never
  helps: white space is neither a delimiter nor a value byte, and a quote is not a
  value byte.
\<close>

definition skipQuote :: "string \<Rightarrow> string" where
  "skipQuote s = (case s of [] \<Rightarrow> [] | q # t \<Rightarrow> if isQuote q then t else s)"

definition matchTail :: "string \<Rightarrow> string option" where
  "matchTail r =
     (case dropWhile isSpace r of
        [] \<Rightarrow> None
      | d # r2 \<Rightarrow>
          if \<not> isDelim d then None
          else (let r4 = skipQuote (dropWhile isSpace r2);
                    v = takeWhile isValueChar r4
                in if v = [] then None else Some (skipQuote (dropWhile isValueChar r4))))"

definition markers :: "string list" where
  "markers = [''password'', ''token'', ''key'', ''secret'']"

text \<open>The alternatives are tried in order; the first whose continuation matches
  wins. The result is group 1 and the input after the whole match.\<close>

fun matchAlternatives :: "string list \<Rightarrow> string \<Rightarrow> (string \<times> string) option" where
  "matchAlternatives [] s = None"
| "matchAlternatives (w # ws) s =
     (case matchLiteral w s of
        None \<Rightarrow> matchAlternatives ws s
      | Some (m, r) \<Rightarrow>
          (case matchTail r of
             None \<Rightarrow> matchAlternatives ws s
           | Some rest \<Rightarrow> Some (m, rest)))"

definition matchHere :: "string \<Rightarrow> (string \<times> string) option" where
  "matchHere s = matchAlternatives markers s"

text \<open>
  \<^verbatim>\<open>p.ReplaceAllString(s, "$1: " + r.mask)\<close>: the leftmost match is replaced by group 1,
  a colon, a space and the mask; the search resumes after the match.
\<close>

function ReplaceAllString :: "string \<Rightarrow> string" where
  "ReplaceAllString [] = []"
| "ReplaceAllString (c # cs) =
     (case matchHere (c # cs) of
        None \<Rightarrow> c # ReplaceAllString cs
      | Some (m, rest) \<Rightarrow> m @ '': '' @ mask_str @ ReplaceAllString rest)"
  by pat_completeness auto
termination
proof (relation "measure length")
  have lit: "length r \<le> length s" if "matchLiteral w s = Some (m, r)" for w s m r
    using that
  proof (induction w arbitrary: s m)
    case Nil
    then show ?case by simp
  next
    case (Cons p ps)
    then show ?case
      by (fastforce split: option.splits)
  qed
  have tail: "length rest < length r" if "matchTail r = Some rest" for r rest
  proof -
    have dw: "length (dropWhile P xs) \<le> length xs" for P and xs :: string
      by (induction xs) auto
    have sq: "length (skipQuote xs) \<le> length xs" for xs
      by (cases xs) (auto simp: skipQuote_def)
    from that obtain d r2 where d: "dropWhile isSpace r = d # r2"
      by (auto simp: matchTail_def split: list.splits)
    with that have rest: "rest = skipQuote (dropWhile isValueChar (skipQuote (dropWhile isSpace r2)))"
      by (auto simp: matchTail_def Let_def split: if_splits)
    have "length (skipQuote (dropWhile isValueChar (skipQuote (dropWhile isSpace r2))))
            \<le> length r2"
      using sq [of "dropWhile isValueChar (skipQuote (dropWhile isSpace r2))"]
        dw [of isValueChar "skipQuote (dropWhile isSpace r2)"]
        sq [of "dropWhile isSpace r2"] dw [of isSpace r2]
      by linarith
    then have "length rest \<le> length r2"
      by (simp only: rest)
    moreover have "length (d # r2) \<le> length r"
      using dw [of isSpace r] d by simp
    ultimately show ?thesis by simp
  qed
  have alt: "length rest < length s" if "matchAlternatives ws s = Some (m, rest)" for ws s m rest
    using that
  proof (induction ws)
    case Nil
    then show ?case by simp
  next
    case (Cons w ws)
    then show ?case
      using lit tail by (fastforce split: option.splits)
  qed
  show "wf (measure length)" by simp
  show "(cs, c # cs) \<in> measure length" for c cs by simp
  show "(rest, c # cs) \<in> measure length"
    if "matchHere (c # cs) = Some x2" "(m, rest) = x2" for c cs x2 m rest
    using that alt [of markers "c # cs" m rest] by (simp add: matchHere_def)
qed

definition RedactString :: "string \<Rightarrow> string" where
  "RedactString input = ReplaceAllString input"

definition Redact :: "bytes \<Rightarrow> bytes" where
  "Redact input = ReplaceAllString input"

subsection \<open>Structural redaction\<close>

definition IDOT :: string where
  "IDOT = [CHR 0xC4, CHR 0xB0]"

text \<open>
  \<^verbatim>\<open>strings.ToLower\<close>. Besides the ASCII capitals, two runes have an ASCII lower case:
  the Kelvin sign U+212A (\<^verbatim>\<open>k\<close>) and the dotted capital I U+0130 (\<^verbatim>\<open>i\<close>). Every other
  non-ASCII rune stays non-ASCII; its bytes are left as they are here, which no
  search for an ASCII keyword can tell apart from what Go produces.
\<close>

fun ToLower :: "string \<Rightarrow> string" where
  "ToLower [] = []"
| "ToLower (c # cs) =
     (if prefix KELVIN (c # cs) then CHR ''k'' # ToLower (drop 2 cs)
      else if prefix IDOT (c # cs) then CHR ''i'' # ToLower (drop 1 cs)
      else asciiLower c # ToLower cs)"

text \<open>\<^verbatim>\<open>strings.Contains\<close>\<close>

fun Contains :: "string \<Rightarrow> string \<Rightarrow> bool" where
  "Contains [] substr = (substr = [])"
| "Contains (c # cs) substr = (prefix substr (c # cs) \<or> Contains cs substr)"

definition sensitiveKeys :: "string list" where
  "sensitiveKeys = [''password'', ''token'', ''key'', ''secret'', ''authorization'']"

definition isSensitive :: "string \<Rightarrow> bool" where
  "isSensitive k = list_ex (\<lambda>sk. Contains (ToLower k) sk) sensitiveKeys"

fun scrubMap :: "(string \<times> goval) list \<Rightarrow> (string \<times> goval) list"
  and scrubSlice :: "goval list \<Rightarrow> goval list" where
  "scrubMap [] = []"
| "scrubMap ((k, v) # kvs) =
     (k, if isSensitive k then GString ''[REDACTED]''
         else (case v of
                 GMap val \<Rightarrow> GMap (scrubMap val)
               | GSlice val \<Rightarrow> GSlice (scrubSlice val)
               | _ \<Rightarrow> v)) # scrubMap kvs"
| "scrubSlice [] = []"
| "scrubSlice (v # vs) =
     (case v of
        GMap val \<Rightarrow> GMap (scrubMap val)
      | GSlice val \<Rightarrow> GSlice (scrubSlice val)
      | _ \<Rightarrow> v) # scrubSlice vs"

text \<open>The type switch that \<^verbatim>\<open>scrubMap\<close>, \<^verbatim>\<open>scrubSlice\<close> and \<^verbatim>\<open>scrubJSON\<close> each apply to a
  value: mappings and sequences are scrubbed, anything else is returned as it is.\<close>

definition scrubValue :: "goval \<Rightarrow> goval" where
  "scrubValue v =
     (case v of
        GMap val \<Rightarrow> GMap (scrubMap val)
      | GSlice val \<Rightarrow> GSlice (scrubSlice val)
      | _ \<Rightarrow> v)"

text \<open>Positions inside a nested value: a path of mapping keys and sequence indices.\<close>

datatype step = Key string | Index nat

fun lookupPath :: "goval \<Rightarrow> step list \<Rightarrow> goval option" where
  "lookupPath v [] = Some v"
| "lookupPath (GMap m) (Key k # ps) =
     (case map_of m k of None \<Rightarrow> None | Some v \<Rightarrow> lookupPath v ps)"
| "lookupPath (GSlice l) (Index i # ps) =
     (if i < length l then lookupPath (l ! i) ps else None)"
| "lookupPath _ _ = None"

definition keysOf :: "step list \<Rightarrow> string set" where
  "keysOf ps = {k. Key k \<in> set ps}"

definition isScalar :: "goval \<Rightarrow> bool" where
  "isScalar v = (case v of GMap _ \<Rightarrow> False | GSlice _ \<Rightarrow> False | _ \<Rightarrow> True)"

definition scrubJSON :: "env \<Rightarrow> goval \<Rightarrow> string + goval" where
  "scrubJSON e input =
     (case Marshal e input of
        Inl err \<Rightarrow> Inl err
      | Inr buf \<Rightarrow>
          (case Unmarshal e buf of
             Inl err \<Rightarrow> Inl err
           | Inr data \<Rightarrow>
               (case data of
                  GMap v \<Rightarrow> Inr (GMap (scrubMap v))
                | GSlice v \<Rightarrow> Inr (GSlice (scrubSlice v))
                | _ \<Rightarrow> Inr data)))"

section \<open>bundler.go\<close>

datatype Option = WithRedaction | WithTimestamp Time | WithOutputDir string

record config =
  redact :: bool
  timestamp :: Time
  outputDir :: string

fun applyOption :: "Option \<Rightarrow> config \<Rightarrow> config" where
  "applyOption WithRedaction c = c\<lparr>redact := True\<rparr>"
| "applyOption (WithTimestamp t) c = c\<lparr>timestamp := t\<rparr>"
| "applyOption (WithOutputDir path) c = c\<lparr>outputDir := path\<rparr>"

text \<open>Step 1 of \<^verbatim>\<open>Build\<close>: the defaults, then the options in the order given.\<close>

definition configure :: "env \<Rightarrow> Option list \<Rightarrow> config" where
  "configure e opts =
     foldl (\<lambda>cfg opt. applyOption opt cfg)
       \<lparr>redact = False, timestamp = Now e, outputDir = ''.''\<rparr> opts"

text \<open>The errors \<^verbatim>\<open>Build\<close> returns, each with the error it wraps.\<close>

datatype error =
    RedactionFailed string string
  | SerializationFailed string string
  | MarshalManifestFailed string
  | WriteArchiveFailed write_error

fun write_error_string :: "write_error \<Rightarrow> string" where
  "write_error_string (CreateOutputDirFailed err) = ''failed to create output directory: '' @ err"
| "write_error_string (ResolveAbsFailed err) = ''failed to resolve absolute path: '' @ err"
| "write_error_string (CreateArchiveFailed err) = ''failed to create archive file: '' @ err"
| "write_error_string (WriteHeaderFailed p err) = ''failed to write header for '' @ p @ '': '' @ err"
| "write_error_string (WriteContentFailed p err) =
     ''failed to write content for '' @ p @ '': '' @ err"

fun error_string :: "error \<Rightarrow> string" where
  "error_string (RedactionFailed path err) = ''redaction failed for '' @ path @ '': '' @ err"
| "error_string (SerializationFailed path err) =
     ''serialization failed for '' @ path @ '': '' @ err"
| "error_string (MarshalManifestFailed err) = ''failed to marshal manifest: '' @ err"
| "error_string (WriteArchiveFailed err) = ''failed to write archive: '' @ write_error_string err"

text \<open>
  The redaction phase of \<^verbatim>\<open>addFile\<close>. It yields \<^verbatim>\<open>content\<close> (\<open>None\<close> while it is still
  \<^verbatim>\<open>nil\<close>) and \<^verbatim>\<open>data\<close>, which structural redaction replaces by the scrubbed value.
\<close>

definition redactionPhase ::
  "env \<Rightarrow> config \<Rightarrow> string \<Rightarrow> goval \<Rightarrow> error + (bytes option \<times> goval)" where
  "redactionPhase e cfg path data =
     (if redact cfg then
        (case data of
           GBytes v \<Rightarrow> Inr (Some (Redact v), data)
         | GString v \<Rightarrow> Inr (Some (RedactString v), data)
         | _ \<Rightarrow>
             (case scrubJSON e data of
                Inl err \<Rightarrow> Inl (RedactionFailed path err)
              | Inr cleanData \<Rightarrow> Inr (None, cleanData)))
      else Inr (None, data))"

text \<open>The serialization phase: only when \<^verbatim>\<open>content\<close> is still \<^verbatim>\<open>nil\<close>.\<close>

definition serializationPhase ::
  "env \<Rightarrow> string \<Rightarrow> bytes option \<Rightarrow> goval \<Rightarrow> bool \<Rightarrow> error + bytes" where
  "serializationPhase e path content data isJSON =
     (case content of
        Some c \<Rightarrow> Inr c
      | None \<Rightarrow>
          (case data of
             GBytes b \<Rightarrow> Inr b
           | GString s \<Rightarrow> Inr s
           | _ \<Rightarrow>
               (case (if isJSON then MarshalIndent e data else yamlMarshal e data) of
                  Inl err \<Rightarrow> Inl (SerializationFailed path err)
                | Inr c \<Rightarrow> Inr c)))"

text \<open>The bytes \<^verbatim>\<open>addFile\<close> ends up with for one logical file, or its error.\<close>

definition fileContent :: "env \<Rightarrow> config \<Rightarrow> string \<Rightarrow> goval \<Rightarrow> bool \<Rightarrow> error + bytes" where
  "fileContent e cfg path data isJSON =
     (case redactionPhase e cfg path data of
        Inl err \<Rightarrow> Inl err
      | Inr (content, data') \<Rightarrow> serializationPhase e path content data' isJSON)"

text \<open>The closure \<^verbatim>\<open>addFile\<close>; the manifest builder and the archive writer it updates
  are passed in and returned.\<close>

definition addFile ::
  "env \<Rightarrow> config \<Rightarrow> ManifestBuilder \<times> ArchiveWriter \<Rightarrow> string \<Rightarrow> goval \<Rightarrow> bool
     \<Rightarrow> error + ManifestBuilder \<times> ArchiveWriter" where
  "addFile e cfg st path data isJSON =
     (case fileContent e cfg path data isJSON of
        Inl err \<Rightarrow> Inl err
      | Inr content \<Rightarrow>
          Inr (ManifestBuilder_AddFile (Sum256 e) (fst st) path (int (length content)) content,
               ArchiveWriter_AddFile (snd st) path content))"

text \<open>Steps 4 and 5: the loops over \<^verbatim>\<open>input.Logs\<close> and \<^verbatim>\<open>input.Resources\<close>, in the order
  in which \<^verbatim>\<open>range\<close> visits them.\<close>

fun addLogs ::
  "env \<Rightarrow> config \<Rightarrow> ManifestBuilder \<times> ArchiveWriter \<Rightarrow> (string \<times> bytes) list
     \<Rightarrow> error + ManifestBuilder \<times> ArchiveWriter" where
  "addLogs e cfg st [] = Inr st"
| "addLogs e cfg st ((filename, content) # rest) =
     (case addFile e cfg st (Join [LogsDir, filename]) (GBytes content) False of
        Inl err \<Rightarrow> Inl err
      | Inr st' \<Rightarrow> addLogs e cfg st' rest)"

fun addResources ::
  "env \<Rightarrow> config \<Rightarrow> ManifestBuilder \<times> ArchiveWriter \<Rightarrow> (string \<times> string) list
     \<Rightarrow> error + ManifestBuilder \<times> ArchiveWriter" where
  "addResources e cfg st [] = Inr st"
| "addResources e cfg st ((path, content) # rest) =
     (case addFile e cfg st (Join [ResourcesDir, path]) (GString content) False of
        Inl err \<Rightarrow> Inl err
      | Inr st' \<Rightarrow> addResources e cfg st' rest)"

definition summaryText :: "config \<Rightarrow> BundleInput \<Rightarrow> string" where
  "summaryText cfg input =
     ''Fluid Diagnostic Bundle'' @ [CHR 0x0A] @
     ''Generated: '' @ Format_RFC3339 (timestamp cfg) @ [CHR 0x0A] @
     ''Issues: '' @ itoa (length (Issues (Diagnosis input))) @ [CHR 0x0A]"

text \<open>Steps 2 to 5 of \<^verbatim>\<open>Build\<close>: everything that happens in memory before the
  manifest is finalized.\<close>

definition addAllFiles ::
  "env \<Rightarrow> config \<Rightarrow> BundleInput \<Rightarrow> error + ManifestBuilder \<times> ArchiveWriter" where
  "addAllFiles e cfg input =
     (let baseDir = ''fluid-diagnose-'' @ Format_compact (timestamp cfg);
          manifestBuilder = NewManifestBuilder ''v1'' (timestamp cfg);
          archiveWriter = NewArchiveWriter baseDir (timestamp cfg)
      in case addFile e cfg (manifestBuilder, archiveWriter) GraphFile
                (GResourceGraph (Graph input)) True of
           Inl err \<Rightarrow> Inl err
         | Inr st1 \<Rightarrow>
        (case addFile e cfg st1 DiagnosisFile (GDiagnosticResult (Diagnosis input)) True of
           Inl err \<Rightarrow> Inl err
         | Inr st2 \<Rightarrow>
        (case addFile e cfg st2 (Join [MetadataDir, ''environment.json''])
                (GBundleMetadata (Metadata input)) True of
           Inl err \<Rightarrow> Inl err
         | Inr st3 \<Rightarrow>
        (case addFile e cfg st3 SummaryFile (GString (summaryText cfg input)) False of
           Inl err \<Rightarrow> Inl err
         | Inr st4 \<Rightarrow>
        (case addLogs e cfg st4 (Logs input) of
           Inl err \<Rightarrow> Inl err
         | Inr st5 \<Rightarrow> addResources e cfg st5 (Resources input))))))"

text \<open>\<^verbatim>\<open>Build\<close>, on a disk: the disk afterwards, and the error or the result.\<close>

definition Build :: "env \<Rightarrow> disk \<Rightarrow> BundleInput \<Rightarrow> Option list \<Rightarrow> disk \<times> (error + BundleResult)" where
  "Build e d input opts =
     (let cfg = configure e opts
      in case addAllFiles e cfg input of
           Inl err \<Rightarrow> (d, Inl err)
         | Inr (manifestBuilder, archiveWriter) \<Rightarrow>
             (let manifest = ManifestBuilder_Build (Sum256 e) manifestBuilder
              in case MarshalIndent e (GBundleManifest manifest) of
                   Inl err \<Rightarrow> (d, Inl (MarshalManifestFailed err))
                 | Inr manifestBytes \<Rightarrow>
                     (let archiveWriter' =
                            ArchiveWriter_AddFile archiveWriter ManifestFile manifestBytes
                      in case WriteToDisk e d archiveWriter' (outputDir cfg) of
                           (d', Inl err) \<Rightarrow> (d', Inl (WriteArchiveFailed err))
                         | (d', Inr (archivePath, sz)) \<Rightarrow>
                             (d', Inr \<lparr>ArchivePath = archivePath,
                                       FileCount = TotalFiles manifest + 1,
                                       Manifest = manifest,
                                       SizeBytes = sz\<rparr>))))"

subsection \<open>The logical files of a build\<close>

text \<open>
  The calls of \<^verbatim>\<open>addFile\<close> that \<^verbatim>\<open>Build\<close> makes, as a list in the order of the calls:
  path, data and the \<^verbatim>\<open>isJSON\<close> flag. \<open>addFiles\<close> makes the calls of such a list one
  after the other and stops at the first error.
\<close>

definition logicalFiles :: "config \<Rightarrow> BundleInput \<Rightarrow> (string \<times> goval \<times> bool) list" where
  "logicalFiles cfg input =
     [(GraphFile, GResourceGraph (Graph input), True),
      (DiagnosisFile, GDiagnosticResult (Diagnosis input), True),
      (Join [MetadataDir, ''environment.json''], GBundleMetadata (Metadata input), True),
      (SummaryFile, GString (summaryText cfg input), False)] @
     map (\<lambda>(filename, content). (Join [LogsDir, filename], GBytes content, False)) (Logs input) @
     map (\<lambda>(path, content). (Join [ResourcesDir, path], GString content, False)) (Resources input)"

fun addFiles ::
  "env \<Rightarrow> config \<Rightarrow> ManifestBuilder \<times> ArchiveWriter \<Rightarrow> (string \<times> goval \<times> bool) list
     \<Rightarrow> error + ManifestBuilder \<times> ArchiveWriter" where
  "addFiles e cfg st [] = Inr st"
| "addFiles e cfg st ((path, data, isJSON) # rest) =
     (case addFile e cfg st path data isJSON of
        Inl err \<Rightarrow> Inl err
      | Inr st' \<Rightarrow> addFiles e cfg st' rest)"

text \<open>What \<^verbatim>\<open>addFile\<close> makes of one logical file: its bytes or its error.\<close>

definition outcome :: "env \<Rightarrow> config \<Rightarrow> string \<times> goval \<times> bool \<Rightarrow> error + bytes" where
  "outcome e cfg f = fileContent e cfg (fst f) (fst (snd f)) (snd (snd f))"

definition bytesOf :: "env \<Rightarrow> config \<Rightarrow> string \<times> goval \<times> bool \<Rightarrow> bytes" where
  "bytesOf e cfg f = (case outcome e cfg f of Inr c \<Rightarrow> c | Inl _ \<Rightarrow> [])"

text \<open>The keys of a Go map after assignments to the given keys, in the order in which
  the keys first appear.\<close>

fun keysAfter :: "string list \<Rightarrow> string list \<Rightarrow> string list" where
  "keysAfter ks [] = ks"
| "keysAfter ks (p # ps) = keysAfter (if p \<in> set ks then ks else ks @ [p]) ps"

section \<open>An environment for evaluation\<close>

text \<open>
  An environment in which every call succeeds, to run the model on concrete inputs.
  Its digest is the identity and its encoders return a fixed placeholder, except
  that a manifest is rendered by its file entries, one line each in the order of
  the list, and its content hash. The results evaluated with it are read for paths,
  counts and order, never for the encoded bytes of JSON.
\<close>

definition t0 :: Time where
  "t0 = \<lparr>Year = 2024, Month = 1, Day = 1, Hour = 12, Minute = 0, Second = 0,
         Nanosecond = 0, Offset = 0\<rparr>"

text \<open>The scenario of the specification: one graph key, no issue, environment
  \<^verbatim>\<open>test\<close>, one log, no resource.\<close>

definition scenarioInput :: BundleInput where
  "scenarioInput =
     \<lparr>Graph = [(''kind'', GString ''Dataset'')],
      Diagnosis = \<lparr>Issues = [], Score = 0\<rparr>,
      Metadata = \<lparr>CreationTimestamp = zeroTime, FluidVersion = [], K8sVersion = [],
                  Environment = ''test''\<rparr>,
      Logs = [(''test.log'', ''test content'')],
      Resources = []\<rparr>"

definition env0 :: env where
  "env0 = \<lparr>Now = t0\<lparr>Year := 2026\<rparr>,
           Sum256 = (\<lambda>b. b),
           Marshal = (\<lambda>v. Inr ''{}''),
           Unmarshal = (\<lambda>b. Inr (GMap [])),
           MarshalIndent = (\<lambda>v. case v of
               GBundleManifest m \<Rightarrow>
                 Inr (concat (map (\<lambda>f. Path f @ '' '' @ SHA256 f @ [CHR 0x0A]) (Files m)) @
                      ContentHash m)
             | _ \<Rightarrow> Inr ''{}''),
           yamlMarshal = (\<lambda>v. Inr ''{}''),
           MkdirAll = (\<lambda>p. None),
           Abs = (\<lambda>p. Inr (Join [''/work'', p])),
           Create = (\<lambda>p. None),
           WriteHeader = (\<lambda>h. None),
           Write = (\<lambda>h c. None)\<rparr>"

section \<open>The manifest builder\<close>

lemma hasher_fold:
  "foldl (\<lambda>h f. hasher_Write h (SHA256 f)) h0 fs = h0 @ concat (map SHA256 fs)"
  by (induction fs arbitrary: h0) (simp_all add: hasher_Write_def)

lemma ContentHash_Build:
  "ContentHash (ManifestBuilder_Build sum256 mb) =
     EncodeToString (sum256 (concat (map SHA256 (Files (manifest mb)))))"
  by (simp add: ManifestBuilder_Build_def hasher_fold hasher_New_def hasher_Sum_def)

lemma Files_addManifestFiles:
  "Files (manifest (addManifestFiles sum256 mb calls)) =
     Files (manifest mb) @
       map (\<lambda>(path, sz, data). \<lparr>Path = path, Size = sz, SHA256 = EncodeToString (sum256 data)\<rparr>) calls"
  unfolding addManifestFiles_def
  by (induction calls arbitrary: mb) (auto simp: ManifestBuilder_AddFile_def Let_def)

lemma TotalFiles_addManifestFiles:
  "TotalFiles (manifest (addManifestFiles sum256 mb calls)) =
     TotalFiles (manifest mb) + int (length calls)"
  unfolding addManifestFiles_def
  by (induction calls arbitrary: mb) (auto simp: ManifestBuilder_AddFile_def Let_def)

text \<open>
  Claim C5. \<^verbatim>\<open>ManifestBuilder.Build\<close> computes \<open>ContentHash\<close> as the hex form of the SHA-256
  of the per-file digest strings concatenated in the order of the \<^verbatim>\<open>AddFile\<close> calls.
  The right-hand side mentions neither the version, the timestamp, the paths nor the
  sizes; two builders whose entries carry the same digests in the same order get the
  same aggregate digest.
\<close>

theorem C5_aggregate_digest:
  "ContentHash (ManifestBuilder_Build sum256 (addManifestFiles sum256 (NewManifestBuilder v t) calls)) =
     EncodeToString (sum256 (concat (map (\<lambda>(path, sz, data). EncodeToString (sum256 data)) calls)))
   \<and> (map SHA256 (Files (manifest mb1)) = map SHA256 (Files (manifest mb2)) \<longrightarrow>
        ContentHash (ManifestBuilder_Build sum256 mb1) = ContentHash (ManifestBuilder_Build sum256 mb2))"
proof -
  have "map SHA256 (Files (manifest (addManifestFiles sum256 (NewManifestBuilder v t) calls))) =
          map (\<lambda>(path, sz, data). EncodeToString (sum256 data)) calls"
    by (simp add: Files_addManifestFiles NewManifestBuilder_def case_prod_unfold comp_def)
  then show ?thesis
    by (simp add: ContentHash_Build)
qed

theorem C5_aggregate_digest_witness:
  "map SHA256 (Files (manifest (addManifestFiles (\<lambda>b. b) (NewManifestBuilder ''v1'' t0) [(''a'', 1, ''x''), (''b'', 1, ''y'')]))) =
   map SHA256 (Files (manifest (addManifestFiles (\<lambda>b. b) (NewManifestBuilder ''v2'' (t0\<lparr>Year := 1999\<rparr>)) [(''c'', 7, ''x''), (''d'', 9, ''y'')])))
   \<and> ContentHash (ManifestBuilder_Build (\<lambda>b. b) (addManifestFiles (\<lambda>b. b) (NewManifestBuilder ''v1'' t0) [(''a'', 1, ''x''), (''b'', 1, ''y'')])) =
     ContentHash (ManifestBuilder_Build (\<lambda>b. b) (addManifestFiles (\<lambda>b. b) (NewManifestBuilder ''v2'' (t0\<lparr>Year := 1999\<rparr>)) [(''c'', 7, ''x''), (''d'', 9, ''y'')]))"
  using C5_aggregate_digest [of "\<lambda>b. b" "''v1''" t0 "[]"
      "addManifestFiles (\<lambda>b. b) (NewManifestBuilder ''v1'' t0) [(''a'', 1, ''x''), (''b'', 1, ''y'')]"
      "addManifestFiles (\<lambda>b. b) (NewManifestBuilder ''v2'' (t0\<lparr>Year := 1999\<rparr>)) [(''c'', 7, ''x''), (''d'', 9, ''y'')]"]
  by (simp add: Files_addManifestFiles NewManifestBuilder_def)

section \<open>The archive writer\<close>

lemma files_addArchiveFiles_keys:
  "fst ` set (files (addArchiveFiles w calls)) = fst ` set (files w) \<union> fst ` set calls"
  unfolding addArchiveFiles_def
  by (induction calls arbitrary: w)
     (auto simp: ArchiveWriter_AddFile_def dom_update split: prod.splits)

lemma distinct_addArchiveFiles:
  "distinct (map fst (files w)) \<Longrightarrow> distinct (map fst (files (addArchiveFiles w calls)))"
  unfolding addArchiveFiles_def
  by (induction calls arbitrary: w)
     (auto simp: ArchiveWriter_AddFile_def distinct_update split: prod.splits)

lemma baseDir_addArchiveFiles [simp]: "baseDir (addArchiveFiles w calls) = baseDir w"
  unfolding addArchiveFiles_def
  by (induction calls arbitrary: w) (auto simp: ArchiveWriter_AddFile_def split: prod.splits)

lemma ts_addArchiveFiles [simp]: "ts (addArchiveFiles w calls) = ts w"
  unfolding addArchiveFiles_def
  by (induction calls arbitrary: w) (auto simp: ArchiveWriter_AddFile_def split: prod.splits)

lemma sortedPaths_strict:
  "distinct (map fst (files w)) \<Longrightarrow> sorted_wrt (<) (sortedPaths w)"
  by (simp add: sortedPaths_def strict_sorted_iff)

lemma set_sortedPaths: "set (sortedPaths w) = fst ` set (files w)"
  by (simp add: sortedPaths_def)

lemma writeEntries_Inr:
  "writeEntries e w ps done n = (written, Inr sz) \<Longrightarrow>
     written = done @ map (entryFor w) ps \<and>
     sz = n + (\<Sum>p\<leftarrow>ps. int (length (contentAt w p)))"
proof (induction ps arbitrary: "done" n)
  case Nil
  then show ?case by simp
next
  case (Cons p ps)
  from Cons.prems have
    "writeEntries e w ps (done @ [entryFor w p]) (n + int (length (contentAt w p))) = (written, Inr sz)"
    by (auto simp: Let_def entryFor_def split: option.splits)
  from Cons.IH [OF this] show ?case by simp
qed

lemma writeEntries_headers:
  "writeEntries e w ps done n = (written, r) \<Longrightarrow>
     \<exists>k \<le> length ps. map fst written = map fst done @ map (\<lambda>p. fst (entryFor w p)) (take k ps)"
proof (induction ps arbitrary: "done" n)
  case Nil
  then show ?case by simp
next
  case (Cons p ps)
  show ?case
  proof (cases "WriteHeader e (mkHeader w p (contentAt w p))")
    case (Some err)
    with Cons.prems have "written = done" by (simp add: Let_def)
    then show ?thesis by (intro exI [of _ 0]) simp
  next
    case None
    show ?thesis
    proof (cases "Write e (mkHeader w p (contentAt w p)) (contentAt w p)")
      case (Some err)
      with None Cons.prems have "written = done @ [(storedHeader (mkHeader w p (contentAt w p)), [])]"
        by (simp add: Let_def)
      then show ?thesis by (intro exI [of _ 1]) (simp add: entryFor_def)
    next
      case None2: None
      with None Cons.prems have
        "writeEntries e w ps (done @ [entryFor w p]) (n + int (length (contentAt w p))) = (written, r)"
        by (simp add: Let_def entryFor_def)
      from Cons.IH [OF this] obtain k where
        "k \<le> length ps"
        "map fst written = map fst (done @ [entryFor w p]) @ map (\<lambda>p. fst (entryFor w p)) (take k ps)"
        by blast
      then show ?thesis by (intro exI [of _ "Suc k"]) simp
    qed
  qed
qed

lemma WriteToDisk_Inr:
  "WriteToDisk e d w dir = (d', Inr (absPath, sz)) \<Longrightarrow>
     d' = d(absPath \<mapsto> map (entryFor w) (sortedPaths w)) \<and>
     Abs e (Join [dir, baseDir w @ ''.tar.gz'']) = Inr absPath \<and>
     sz = (\<Sum>p\<leftarrow>sortedPaths w. int (length (contentAt w p)))"
  by (auto simp: WriteToDisk_def Let_def split: option.splits sum.splits prod.splits
      dest!: writeEntries_Inr)

lemma WriteToDisk_touched:
  "WriteToDisk e d w dir = (d', r) \<Longrightarrow>
     d' = d \<or> (\<exists>absPath written k. d' = d(absPath \<mapsto> written) \<and> k \<le> length (sortedPaths w) \<and>
                 map fst written = map (\<lambda>p. fst (entryFor w p)) (take k (sortedPaths w)))"
  by (auto simp: WriteToDisk_def Let_def split: option.splits sum.splits prod.splits
      dest!: writeEntries_headers)


lemma split_slash_nonempty: "split_slash s \<noteq> []"
  by (induction s) (auto split: list.splits)

lemma join_split_slash: "join_slash (split_slash s) = s"
proof (induction s)
  case Nil
  then show ?case by simp
next
  case (Cons c cs)
  obtain x xs where x: "split_slash cs = x # xs"
    using split_slash_nonempty [of cs] by (cases "split_slash cs") auto
  show ?case
  proof (cases "c = CHR ''/''")
    case True
    with Cons x show ?thesis by simp
  next
    case False
    with Cons x show ?thesis by (cases xs) auto
  qed
qed

lemma split_slash_append:
  "split_slash (a @ CHR ''/'' # b) = split_slash a @ split_slash b"
proof (induction a)
  case Nil
  then show ?case by simp
next
  case (Cons c cs)
  obtain x xs where x: "split_slash cs = x # xs"
    using split_slash_nonempty [of cs] by (cases "split_slash cs") auto
  with Cons show ?case by simp
qed

lemma join_slash_append:
  "xs \<noteq> [] \<Longrightarrow> ys \<noteq> [] \<Longrightarrow> join_slash (xs @ ys) = join_slash xs @ ''/'' @ join_slash ys"
proof (induction xs rule: join_slash.induct)
  case 1
  then show ?case by simp
next
  case (2 x)
  then show ?case by (cases ys) simp_all
next
  case (3 x y ys')
  then show ?case by simp
qed

lemma foldl_clean_step_plain:
  "list_all (\<lambda>e. e \<noteq> [] \<and> e \<noteq> ''.'' \<and> e \<noteq> ''..'') es \<Longrightarrow>
     foldl (clean_step rooted) out es = out @ es"
  by (induction es arbitrary: out) (simp_all add: clean_step_def)

lemma cleanRelative_head: "cleanRelative p \<Longrightarrow> p \<noteq> [] \<and> hd p \<noteq> CHR ''/''"
  by (cases p) (auto simp: cleanRelative_def split: list.splits if_splits)

lemma Join_cleanRelative:
  assumes "cleanRelative b" "cleanRelative p"
  shows "Join [b, p] = b @ ''/'' @ p"
proof -
  from cleanRelative_head [OF assms(1)] have b: "b \<noteq> []" "hd b \<noteq> CHR ''/''" by simp_all
  have sp: "split_slash (b @ CHR ''/'' # p) = split_slash b @ split_slash p"
    by (rule split_slash_append)
  have all: "list_all (\<lambda>e. e \<noteq> [] \<and> e \<noteq> ''.'' \<and> e \<noteq> ''..'') (split_slash b @ split_slash p)"
    using assms by (simp add: cleanRelative_def)
  have "join_slash (foldl (clean_step False) [] (split_slash (b @ CHR ''/'' # p))) = b @ CHR ''/'' # p"
    unfolding sp foldl_clean_step_plain [OF all]
    using join_split_slash [of "b @ CHR ''/'' # p"] by (simp add: sp)
  moreover have "hd (b @ CHR ''/'' # p) \<noteq> CHR ''/''"
    using b by simp
  ultimately have "Clean (b @ CHR ''/'' # p) = b @ CHR ''/'' # p"
    by (simp add: Clean_def Let_def)
  with b show ?thesis
    by (simp add: Join_def)
qed

lemma append_less_cancel: "(xs @ ys < xs @ zs) = (ys < (zs :: string))"
  by (induction xs) simp_all

lemma sorted_names:
  assumes "sorted_wrt (<) ps" "cleanRelative b" "\<forall>p \<in> set ps. cleanRelative p"
  shows "sorted_wrt (<) (map (\<lambda>p. Join [b, p]) ps)"
proof -
  have "map (\<lambda>p. Join [b, p]) ps = map (\<lambda>p. b @ ''/'' @ p) ps"
    by (rule map_cong) (use assms(2,3) in \<open>simp_all add: Join_cleanRelative\<close>)
  moreover have "sorted_wrt (<) (map (\<lambda>p. b @ ''/'' @ p) ps)"
    using assms(1) by (simp add: sorted_wrt_map append_less_cancel)
  ultimately show ?thesis by (simp only:)
qed

lemma written_headers:
  assumes "WriteToDisk e d w dir = (d', r)"
    and "d' p = Some written" and "d p \<noteq> Some written"
  shows "\<forall>(h, c) \<in> set written.
           Mode h = 420 \<and> Typeflag h = TypeReg \<and> ModTime h = Round_Second (ts w) \<and>
           AccessTime h = zeroTime \<and> ChangeTime h = zeroTime"
proof -
  from WriteToDisk_touched [OF assms(1)] assms(2,3)
  obtain absPath written' k where
    d': "d' = d(absPath \<mapsto> written')" and
    hs: "map fst written' = map (\<lambda>p. fst (entryFor w p)) (take k (sortedPaths w))"
    by auto
  from d' assms(2,3) have "written' = written"
    by (auto split: if_splits)
  with hs have "set (map fst written) \<subseteq> range (\<lambda>p. fst (entryFor w p))"
    by auto
  then have "\<forall>h \<in> fst ` set written. \<exists>q. h = storedHeader (mkHeader w q (contentAt w q))"
    by (auto simp: entryFor_def)
  then show ?thesis
    by (fastforce simp: mkHeader_def storedHeader_def)
qed

text \<open>
  Claim C7, amended. Whatever the order and the repetitions of the \<^verbatim>\<open>AddFile\<close> calls,
  the archive that \<^verbatim>\<open>WriteToDisk\<close> writes holds one entry for each buffered path, in
  strictly increasing byte-wise lexicographic order of the buffered paths, and the
  name of each entry is \<^verbatim>\<open>filepath.Join(baseDir, path)\<close>. When the base directory and
  every buffered path are clean relative paths, the names of the entries are
  strictly increasing too.
\<close>

theorem C7_sorted_archive_order:
  assumes "WriteToDisk e d (addArchiveFiles (NewArchiveWriter b t) calls) dir = (d', Inr (absPath, sz))"
  shows "\<exists>ps. sorted_wrt (<) ps \<and> set ps = fst ` set calls \<and>
           d' absPath = Some (map (entryFor (addArchiveFiles (NewArchiveWriter b t) calls)) ps) \<and>
           map (Name \<circ> fst) (the (d' absPath)) = map (\<lambda>p. Join [b, p]) ps \<and>
           (cleanRelative b \<and> list_all cleanRelative (map fst calls) \<longrightarrow>
              sorted_wrt (<) (map (Name \<circ> fst) (the (d' absPath))))"
proof -
  let ?w = "addArchiveFiles (NewArchiveWriter b t) calls"
  have "distinct (map fst (files ?w))"
    by (rule distinct_addArchiveFiles) (simp add: NewArchiveWriter_def)
  then have srt: "sorted_wrt (<) (sortedPaths ?w)"
    by (rule sortedPaths_strict)
  have st: "set (sortedPaths ?w) = fst ` set calls"
    by (simp add: set_sortedPaths files_addArchiveFiles_keys NewArchiveWriter_def)
  from WriteToDisk_Inr [OF assms]
  have d': "d' absPath = Some (map (entryFor ?w) (sortedPaths ?w))"
    by simp
  have nm: "map (Name \<circ> fst) (the (d' absPath)) = map (\<lambda>p. Join [b, p]) (sortedPaths ?w)"
    by (simp add: d' entryFor_def mkHeader_def storedHeader_def NewArchiveWriter_def)
  have "sorted_wrt (<) (map (Name \<circ> fst) (the (d' absPath)))"
    if "cleanRelative b" "list_all cleanRelative (map fst calls)"
  proof -
    from that(2) st have "\<forall>p \<in> set (sortedPaths ?w). cleanRelative p"
      by (auto simp: list_all_iff)
    from sorted_names [OF srt that(1) this] show ?thesis
      by (simp only: nm)
  qed
  with srt st d' nm show ?thesis by blast
qed

theorem C7_sorted_archive_order_witness:
  "WriteToDisk env0 Map.empty
     (addArchiveFiles (NewArchiveWriter ''base'' t0)
        [(''logs/b'', ''1''), (''a'', ''22''), (''logs/b'', ''333'')]) ''out''
   = (fst (WriteToDisk env0 Map.empty
       (addArchiveFiles (NewArchiveWriter ''base'' t0)
          [(''logs/b'', ''1''), (''a'', ''22''), (''logs/b'', ''333'')]) ''out''),
      Inr (''/work/out/base.tar.gz'', 5))
   \<and> cleanRelative ''base''
   \<and> list_all cleanRelative (map fst [(''logs/b'', ''1''), (''a'', ''22''), (''logs/b'', ''333'')])
   \<and> (\<exists>ps. sorted_wrt (<) ps \<and>
         set ps = fst ` set [(''logs/b'', ''1''), (''a'', ''22''), (''logs/b'', ''333'')] \<and>
         fst (WriteToDisk env0 Map.empty
           (addArchiveFiles (NewArchiveWriter ''base'' t0)
              [(''logs/b'', ''1''), (''a'', ''22''), (''logs/b'', ''333'')]) ''out'')
           ''/work/out/base.tar.gz''
         = Some (map (entryFor (addArchiveFiles (NewArchiveWriter ''base'' t0)
                   [(''logs/b'', ''1''), (''a'', ''22''), (''logs/b'', ''333'')])) ps) \<and>
         map (Name \<circ> fst) (the (fst (WriteToDisk env0 Map.empty
           (addArchiveFiles (NewArchiveWriter ''base'' t0)
              [(''logs/b'', ''1''), (''a'', ''22''), (''logs/b'', ''333'')]) ''out'')
           ''/work/out/base.tar.gz'')) = map (\<lambda>p. Join [''base'', p]) ps \<and>
         sorted_wrt (<) (map (Name \<circ> fst) (the (fst (WriteToDisk env0 Map.empty
           (addArchiveFiles (NewArchiveWriter ''base'' t0)
              [(''logs/b'', ''1''), (''a'', ''22''), (''logs/b'', ''333'')]) ''out'')
           ''/work/out/base.tar.gz''))))"
proof -
  let ?w = "addArchiveFiles (NewArchiveWriter ''base'' t0)
              [(''logs/b'', ''1''), (''a'', ''22''), (''logs/b'', ''333'')]"
  have "snd (WriteToDisk env0 Map.empty ?w ''out'') = Inr (''/work/out/base.tar.gz'', 5)"
    by code_simp
  then have h: "WriteToDisk env0 Map.empty ?w ''out'' =
      (fst (WriteToDisk env0 Map.empty ?w ''out''), Inr (''/work/out/base.tar.gz'', 5))"
    by (metis prod.collapse)
  have c1: "cleanRelative ''base''" by code_simp
  have c2: "list_all cleanRelative (map fst [(''logs/b'', ''1''), (''a'', ''22''), (''logs/b'', ''333'')])"
    by code_simp
  from C7_sorted_archive_order [OF h] h c1 c2 show ?thesis by blast
qed

text \<open>
  The claim as stated, read on the names of the entries in the archive, fails: the
  paths \<^verbatim>\<open>./b\<close> and \<^verbatim>\<open>a\<close> are written in this order, under the names \<^verbatim>\<open>base/b\<close> and
  \<^verbatim>\<open>base/a\<close>.
\<close>

theorem C7_names_not_sorted:
  "snd (WriteToDisk env0 Map.empty
      (addArchiveFiles (NewArchiveWriter ''base'' t0) [(''a'', ''1''), (''./b'', ''2'')]) ''out'')
     = Inr (''/work/out/base.tar.gz'', 2)
   \<and> map (Name \<circ> fst) (the (fst (WriteToDisk env0 Map.empty
        (addArchiveFiles (NewArchiveWriter ''base'' t0) [(''a'', ''1''), (''./b'', ''2'')]) ''out'')
        ''/work/out/base.tar.gz'')) = [''base/b'', ''base/a'']
   \<and> \<not> sorted_wrt (<) (map (Name \<circ> fst) (the (fst (WriteToDisk env0 Map.empty
        (addArchiveFiles (NewArchiveWriter ''base'' t0) [(''a'', ''1''), (''./b'', ''2'')]) ''out'')
        ''/work/out/base.tar.gz'')))"
proof -
  let ?X = "WriteToDisk env0 Map.empty
      (addArchiveFiles (NewArchiveWriter ''base'' t0) [(''a'', ''1''), (''./b'', ''2'')]) ''out''"
  have a: "snd ?X = Inr (''/work/out/base.tar.gz'', 2)"
    by code_simp
  have b: "map (Name \<circ> fst) (the (fst ?X ''/work/out/base.tar.gz'')) = [''base/b'', ''base/a'']"
    by code_simp
  have c: "\<not> sorted_wrt (<) [''base/b'', ''base/a'']"
    by simp
  from a b c show ?thesis by (simp only: simp_thms)
qed

text \<open>
  Claim C9 at a concrete writer: timestamp 2024-01-01T12:00:00.6Z, one file. The
  entry written has mode 0644 and the regular-file flag, but its modification time
  is the timestamp rounded to the second, and it has no access or change time:
  the writer leaves \<^verbatim>\<open>Format\<close> unspecified, and the tar library then drops what the
  header literal sets.
\<close>

theorem C9_times_not_stored:
  "fst (WriteToDisk env0 Map.empty
      (ArchiveWriter_AddFile (NewArchiveWriter ''base'' (t0\<lparr>Nanosecond := 600000000\<rparr>)) ''a'' ''x'')
      ''out'') ''/work/out/base.tar.gz''
   = Some [(\<lparr>Name = ''base/a'', HSize = 1, Mode = 420,
             ModTime = t0\<lparr>Second := 1\<rparr>, AccessTime = zeroTime, ChangeTime = zeroTime,
             Typeflag = CHR ''0''\<rparr>, ''x'')]
   \<and> t0\<lparr>Second := 1\<rparr> \<noteq> t0\<lparr>Nanosecond := 600000000\<rparr>
   \<and> zeroTime \<noteq> t0\<lparr>Nanosecond := 600000000\<rparr>"
proof -
  have "fst (WriteToDisk env0 Map.empty
      (ArchiveWriter_AddFile (NewArchiveWriter ''base'' (t0\<lparr>Nanosecond := 600000000\<rparr>)) ''a'' ''x'')
      ''out'') ''/work/out/base.tar.gz''
   = Some [(\<lparr>Name = ''base/a'', HSize = 1, Mode = 420,
             ModTime = t0\<lparr>Second := 1\<rparr>, AccessTime = zeroTime, ChangeTime = zeroTime,
             Typeflag = CHR ''0''\<rparr>, ''x'')]"
    by code_simp
  then show ?thesis
    by (simp add: t0_def zeroTime_def)
qed



section \<open>Structural redaction\<close>

lemma Contains_sublist: "Contains s sub = sublist sub s"
proof (induction s)
  case Nil
  then show ?case by simp
next
  case (Cons c cs)
  then show ?case by (auto simp: sublist_Cons_right)
qed

lemma scrubMap_keys: "map fst (scrubMap m) = map fst m"
  by (induction m) auto

lemma scrubMap_entry:
  "scrubMap ((k, v) # kvs) =
     (k, if isSensitive k then GString ''[REDACTED]'' else scrubValue v) # scrubMap kvs"
  by (simp add: scrubValue_def)

lemma scrubMap_lookup:
  "map_of (scrubMap m) k =
     map_option (\<lambda>v. if isSensitive k then GString ''[REDACTED]'' else scrubValue v) (map_of m k)"
proof (induction m)
  case Nil
  then show ?case by simp
next
  case (Cons kv m)
  obtain k' v where kv: "kv = (k', v)" by (cases kv)
  show ?case
    unfolding kv scrubMap_entry using Cons.IH by simp
qed

lemma scrubSlice_map: "scrubSlice l = map scrubValue l"
  by (induction l) (simp_all add: scrubValue_def)

lemma scrubValue_scalar: "isScalar v \<Longrightarrow> scrubValue v = v"
  by (cases v) (simp_all add: isScalar_def scrubValue_def)

lemma lookupPath_scrub:
  "\<forall>k \<in> keysOf ps. \<not> isSensitive k \<Longrightarrow>
     lookupPath (scrubValue v) ps = map_option scrubValue (lookupPath v ps)"
proof (induction ps arbitrary: v)
  case Nil
  then show ?case by simp
next
  case (Cons p ps)
  have rest: "\<forall>k \<in> keysOf ps. \<not> isSensitive k"
    using Cons.prems by (auto simp: keysOf_def)
  note IH = Cons.IH [OF rest]
  show ?case
  proof (cases p)
    case (Key k)
    with Cons.prems have ns: "\<not> isSensitive k" by (auto simp: keysOf_def)
    show ?thesis
    proof (cases v)
      case (GMap m)
      then show ?thesis
        using Key ns IH
        by (cases "map_of m k") (simp_all add: scrubValue_def scrubMap_lookup)
    qed (simp_all add: Key scrubValue_def)
  next
    case (Index i)
    show ?thesis
    proof (cases v)
      case (GSlice l)
      then show ?thesis
        using Index IH by (simp add: scrubValue_def scrubSlice_map)
    qed (simp_all add: Index scrubValue_def)
  qed
qed

lemma lookupPath_append:
  "lookupPath v (ps @ qs) = (case lookupPath v ps of None \<Rightarrow> None | Some u \<Rightarrow> lookupPath u qs)"
proof (induction v ps rule: lookupPath.induct)
  case (1 v)
  then show ?case by simp
next
  case (2 m k ps)
  then show ?case by (cases "map_of m k") simp_all
next
  case (3 l i ps)
  then show ?case by simp
qed (simp_all)

text \<open>
  Claim C4. Structural redaction replaces the value of every mapping key whose
  lower-cased name contains \<^verbatim>\<open>password\<close>, \<^verbatim>\<open>token\<close>, \<^verbatim>\<open>key\<close>, \<^verbatim>\<open>secret\<close> or \<^verbatim>\<open>authorization\<close>
  by \<^verbatim>\<open>[REDACTED]\<close>, whatever the value is and at any depth below keys that are not
  sensitive, and nothing is left below the replaced value; the values of other keys
  and the elements of sequences are scrubbed in turn, and scalars come back
  unchanged. \<^verbatim>\<open>scrubJSON\<close> applies this to what the JSON round trip of its input yields.
\<close>

theorem C4_structural_redaction:
  "map fst (scrubMap m) = map fst m
   \<and> map_of (scrubMap m) k =
       map_option (\<lambda>v. if isSensitive k then GString ''[REDACTED]'' else scrubValue v) (map_of m k)
   \<and> scrubSlice l = map scrubValue l
   \<and> (isScalar v \<longrightarrow> scrubValue v = v)
   \<and> isSensitive k' =
       (\<exists>sk \<in> set [''password'', ''token'', ''key'', ''secret'', ''authorization''].
          sublist sk (ToLower k'))
   \<and> ((\<forall>q \<in> keysOf ps. \<not> isSensitive q) \<and> isSensitive ks \<and>
        lookupPath u (ps @ [Key ks]) = Some x \<longrightarrow>
          lookupPath (scrubValue u) (ps @ [Key ks]) = Some (GString ''[REDACTED]'') \<and>
          lookupPath (scrubValue u) (ps @ Key ks # q # qs) = None)
   \<and> ((\<forall>q \<in> keysOf ps'. \<not> isSensitive q) \<and> lookupPath u' ps' = Some x' \<and> isScalar x' \<longrightarrow>
          lookupPath (scrubValue u') ps' = Some x')
   \<and> (Marshal e input = Inr buf \<and> Unmarshal e buf = Inr data \<longrightarrow>
          scrubJSON e input = Inr (scrubValue data))"
proof -
  have sens: "isSensitive k' =
       (\<exists>sk \<in> set [''password'', ''token'', ''key'', ''secret'', ''authorization''].
          sublist sk (ToLower k'))"
    unfolding isSensitive_def sensitiveKeys_def list_ex_iff Contains_sublist ..
  have deep: "lookupPath (scrubValue u) (ps @ [Key ks]) = Some (GString ''[REDACTED]'') \<and>
          lookupPath (scrubValue u) (ps @ Key ks # q # qs) = None"
    if ns: "\<forall>q \<in> keysOf ps. \<not> isSensitive q" and s: "isSensitive ks"
      and lk: "lookupPath u (ps @ [Key ks]) = Some x"
  proof -
    from lk obtain w where w: "lookupPath u ps = Some w" "lookupPath w [Key ks] = Some x"
      by (auto simp: lookupPath_append split: option.splits)
    from w(2) obtain mm where mm: "w = GMap mm" "map_of mm ks = Some x"
      by (cases w) (auto split: option.splits)
    have "lookupPath (scrubValue u) ps = Some (GMap (scrubMap mm))"
      using lookupPath_scrub [OF ns, of u] w(1) mm(1) by (simp add: scrubValue_def)
    moreover have "map_of (scrubMap mm) ks = Some (GString ''[REDACTED]'')"
      using s mm(2) by (simp add: scrubMap_lookup)
    ultimately show ?thesis
      by (cases q) (simp_all add: lookupPath_append)
  qed
  have leaf: "lookupPath (scrubValue u') ps' = Some x'"
    if "\<forall>q \<in> keysOf ps'. \<not> isSensitive q" "lookupPath u' ps' = Some x'" "isScalar x'"
    using lookupPath_scrub [OF that(1), of u'] that(2,3) by (simp add: scrubValue_scalar)
  have js: "scrubJSON e input = Inr (scrubValue data)"
    if "Marshal e input = Inr buf" "Unmarshal e buf = Inr data"
    using that by (cases data) (simp_all add: scrubJSON_def scrubValue_def)
  show ?thesis
    using scrubMap_keys [of m] scrubMap_lookup [of m k] scrubSlice_map [of l]
      scrubValue_scalar [of v] sens deep leaf js
    by simp
qed

theorem C4_structural_redaction_witness:
  "isScalar (GString ''x'')
   \<and> scrubValue (GString ''x'') = GString ''x''
   \<and> keysOf [Key ''spec'', Index 0] = {''spec''} \<and> \<not> isSensitive ''spec'' \<and> isSensitive ''apiKey''
   \<and> lookupPath (GMap [(''spec'', GSlice [GMap [(''apiKey'', GMap [(''deep'', GString ''v'')]),
                                                 (''name'', GString ''x'')]])])
        ([Key ''spec'', Index 0] @ [Key ''apiKey'']) = Some (GMap [(''deep'', GString ''v'')])
   \<and> lookupPath (scrubValue (GMap [(''spec'', GSlice [GMap [(''apiKey'', GMap [(''deep'', GString ''v'')]),
                                                 (''name'', GString ''x'')]])]))
        ([Key ''spec'', Index 0] @ [Key ''apiKey'']) = Some (GString ''[REDACTED]'')
   \<and> lookupPath (scrubValue (GMap [(''spec'', GSlice [GMap [(''apiKey'', GMap [(''deep'', GString ''v'')]),
                                                 (''name'', GString ''x'')]])]))
        ([Key ''spec'', Index 0] @ Key ''apiKey'' # Key ''deep'' # []) = None
   \<and> keysOf [Key ''spec'', Index 0, Key ''name''] = {''spec'', ''name''} \<and> \<not> isSensitive ''name''
   \<and> lookupPath (GMap [(''spec'', GSlice [GMap [(''apiKey'', GMap [(''deep'', GString ''v'')]),
                                                 (''name'', GString ''x'')]])])
        [Key ''spec'', Index 0, Key ''name''] = Some (GString ''x'')
   \<and> lookupPath (scrubValue (GMap [(''spec'', GSlice [GMap [(''apiKey'', GMap [(''deep'', GString ''v'')]),
                                                 (''name'', GString ''x'')]])]))
        [Key ''spec'', Index 0, Key ''name''] = Some (GString ''x'')
   \<and> Marshal (env0\<lparr>Unmarshal := \<lambda>b. Inr (GMap [(''password'', GString ''abc123''), (''name'', GString ''x'')])\<rparr>)
        (GResourceGraph [(''password'', GString ''abc123''), (''name'', GString ''x'')]) = Inr ''{}''
   \<and> Unmarshal (env0\<lparr>Unmarshal := \<lambda>b. Inr (GMap [(''password'', GString ''abc123''), (''name'', GString ''x'')])\<rparr>)
        ''{}'' = Inr (GMap [(''password'', GString ''abc123''), (''name'', GString ''x'')])
   \<and> scrubJSON (env0\<lparr>Unmarshal := \<lambda>b. Inr (GMap [(''password'', GString ''abc123''), (''name'', GString ''x'')])\<rparr>)
        (GResourceGraph [(''password'', GString ''abc123''), (''name'', GString ''x'')])
       = Inr (GMap [(''password'', GString ''[REDACTED]''), (''name'', GString ''x'')])"
proof -
  let ?u = "GMap [(''spec'', GSlice [GMap [(''apiKey'', GMap [(''deep'', GString ''v'')]),
                                           (''name'', GString ''x'')]])]"
  let ?m = "[(''password'', GString ''abc123''), (''name'', GString ''x'')]"
  let ?e = "env0\<lparr>Unmarshal := \<lambda>b. Inr (GMap ?m)\<rparr>"
  note inst = C4_structural_redaction [of _ _ _ "GString ''x''" _ "[Key ''spec'', Index 0]" "''apiKey''" "?u"
      "GMap [(''deep'', GString ''v'')]" "Key ''deep''" "[]"
      "[Key ''spec'', Index 0, Key ''name'']" "?u" "GString ''x''"
      "?e" "GResourceGraph ?m" "''{}''" "GMap ?m"]
  have a: "isScalar (GString ''x'')" by (simp add: isScalar_def)
  have k1: "keysOf [Key ''spec'', Index 0] = {''spec''}" by (auto simp: keysOf_def)
  have k2: "keysOf [Key ''spec'', Index 0, Key ''name''] = {''spec'', ''name''}"
    by (auto simp: keysOf_def)
  have s1: "\<not> isSensitive ''spec''" by code_simp
  have s2: "isSensitive ''apiKey''" by code_simp
  have s3: "\<not> isSensitive ''name''" by code_simp
  have b1: "\<forall>q \<in> keysOf [Key ''spec'', Index 0]. \<not> isSensitive q"
    unfolding k1 using s1 by simp
  have b2: "\<forall>q \<in> keysOf [Key ''spec'', Index 0, Key ''name'']. \<not> isSensitive q"
    unfolding k2 using s1 s3 by simp
  have l1: "lookupPath ?u ([Key ''spec'', Index 0] @ [Key ''apiKey'']) = Some (GMap [(''deep'', GString ''v'')])"
    by simp
  have l2: "lookupPath ?u [Key ''spec'', Index 0, Key ''name''] = Some (GString ''x'')"
    by simp
  have m1: "Marshal ?e (GResourceGraph ?m) = Inr ''{}''" by (simp add: env0_def)
  have m2: "Unmarshal ?e ''{}'' = Inr (GMap ?m)" by simp
  have sv: "scrubValue (GMap ?m) = GMap [(''password'', GString ''[REDACTED]''), (''name'', GString ''x'')]"
    by code_simp
  from inst a have c1: "scrubValue (GString ''x'') = GString ''x''" by blast
  from inst b1 s2 l1 have c2:
    "lookupPath (scrubValue ?u) ([Key ''spec'', Index 0] @ [Key ''apiKey'']) = Some (GString ''[REDACTED]'')"
    "lookupPath (scrubValue ?u) ([Key ''spec'', Index 0] @ Key ''apiKey'' # Key ''deep'' # []) = None"
    by blast+
  from inst b2 l2 a have c3:
    "lookupPath (scrubValue ?u) [Key ''spec'', Index 0, Key ''name''] = Some (GString ''x'')"
    by blast
  from inst m1 m2 have "scrubJSON ?e (GResourceGraph ?m) = Inr (scrubValue (GMap ?m))"
    by blast
  then have c4: "scrubJSON ?e (GResourceGraph ?m) =
      Inr (GMap [(''password'', GString ''[REDACTED]''), (''name'', GString ''x'')])"
    by (simp only: sv)
  from a c1 k1 s1 s2 l1 c2 k2 s3 l2 c3 m1 m2 c4 show ?thesis
    by (intro conjI)
qed

end
